theory Spec2Isabelle
  imports Complex_Main "HOL-Library.Word"
begin

section \<open>Values shared by the models\<close>

text \<open>
  A Python \<open>bytes\<close> object is a list of 8-bit words; a Python \<open>str\<close> is a list of
  Unicode code points, so that \<open>len\<close> counts code points as the interpreter does.
  String literals of the source are written with \<open>lit\<close>.
\<close>

type_synonym byte = "8 word"
type_synonym str = "nat list"

definition lit :: "string \<Rightarrow> str" where
  "lit s = map of_char s"

text \<open>
  Exceptions are values. Only the exception classes the modelled code can meet are
  listed; \<open>OSError\<close> stands for any failure reported by a socket or channel and
  carries the text \<open>str(e)\<close> returns. For the classes raised by the interpreter
  itself \<open>exn_str\<close> gives the class name only: their full message is never compared.
\<close>

datatype exn =
    UnicodeDecodeError
  | JSONDecodeError
  | AttributeError
  | TypeError
  | ValueError
  | OverflowError
  | OSError str

fun exn_str :: "exn \<Rightarrow> str" where
  "exn_str (OSError m) = m"
| "exn_str UnicodeDecodeError = lit ''UnicodeDecodeError''"
| "exn_str JSONDecodeError = lit ''JSONDecodeError''"
| "exn_str AttributeError = lit ''AttributeError''"
| "exn_str TypeError = lit ''TypeError''"
| "exn_str ValueError = lit ''ValueError''"
| "exn_str OverflowError = lit ''OverflowError''"

section \<open>Decoding a chunk: \<open>data.decode("utf-8")\<close>, then \<open>data.decode("gbk", errors="ignore")\<close>\<close>

text \<open>
  \<open>utf8_first\<close> reads one character from the front of a byte string, as the strict
  UTF-8 codec does: the shortest form only, no surrogates, nothing above U+10FFFF. It
  returns the code point and the number of bytes it took.
\<close>

definition cont :: "byte \<Rightarrow> bool" where
  "cont b \<longleftrightarrow> 0x80 \<le> b \<and> b \<le> 0xBF"

definition second_ok :: "byte \<Rightarrow> byte \<Rightarrow> bool" where
  "second_ok b0 b1 \<longleftrightarrow>
     (if b0 = 0xE0 then 0xA0 \<le> b1 \<and> b1 \<le> 0xBF
      else if b0 = 0xED then 0x80 \<le> b1 \<and> b1 \<le> 0x9F
      else if b0 = 0xF0 then 0x90 \<le> b1 \<and> b1 \<le> 0xBF
      else if b0 = 0xF4 then 0x80 \<le> b1 \<and> b1 \<le> 0x8F
      else cont b1)"

fun utf8_first :: "byte list \<Rightarrow> (nat \<times> nat) option" where
  "utf8_first [] = None"
| "utf8_first (b0 # bs) =
     (if b0 < 0x80 then Some (unat b0, 1)
      else if 0xC2 \<le> b0 \<and> b0 \<le> 0xDF then
        (case bs of
           b1 # _ \<Rightarrow>
             if cont b1 then Some ((unat b0 - 0xC0) * 64 + (unat b1 - 0x80), 2) else None
         | _ \<Rightarrow> None)
      else if 0xE0 \<le> b0 \<and> b0 \<le> 0xEF then
        (case bs of
           b1 # b2 # _ \<Rightarrow>
             if second_ok b0 b1 \<and> cont b2
             then Some ((unat b0 - 0xE0) * 4096 + (unat b1 - 0x80) * 64 + (unat b2 - 0x80), 3)
             else None
         | _ \<Rightarrow> None)
      else if 0xF0 \<le> b0 \<and> b0 \<le> 0xF4 then
        (case bs of
           b1 # b2 # b3 # _ \<Rightarrow>
             if second_ok b0 b1 \<and> cont b2 \<and> cont b3
             then Some ((unat b0 - 0xF0) * 262144 + (unat b1 - 0x80) * 4096
                        + (unat b2 - 0x80) * 64 + (unat b3 - 0x80), 4)
             else None
         | _ \<Rightarrow> None)
      else None)"

text \<open>Putting a character in front of the rest of a decoding that may have failed.\<close>

fun push :: "nat \<Rightarrow> exn + str \<Rightarrow> exn + str" where
  "push c (Inr t) = Inr (c # t)"
| "push c (Inl e) = Inl e"

lemma utf8_first_takes: "utf8_first bs = Some (c, k) \<Longrightarrow> 0 < k \<and> k \<le> length bs"
  by (cases bs) (auto split: if_splits list.splits)

function utf8_decode :: "byte list \<Rightarrow> exn + str" where
  "utf8_decode bs =
     (if bs = [] then Inr []
      else (case utf8_first bs of
              None \<Rightarrow> Inl UnicodeDecodeError
            | Some (c, k) \<Rightarrow> push c (utf8_decode (drop k bs))))"
  by pat_completeness auto
termination
  by (relation "measure length") (auto dest: utf8_first_takes)

text \<open>
  The GBK codec. Its table of two-byte characters is data of the interpreter, not of
  this repository, and is a parameter: \<open>tbl c1 c2\<close> is the code point of the pair, or
  \<open>None\<close> when the pair is unassigned. The decoder copies a byte below \<open>0x80\<close>, and
  otherwise needs a second byte and an assigned pair. Under \<open>errors="ignore"\<close> an
  unassigned pair costs its first byte and a lead byte with nothing after it is left
  out; under \<open>errors="strict"\<close> both raise.
\<close>

type_synonym gbk_table = "byte \<Rightarrow> byte \<Rightarrow> nat option"

datatype errors_mode = Strict | Ignore

fun gbk_decode :: "gbk_table \<Rightarrow> errors_mode \<Rightarrow> byte list \<Rightarrow> exn + str" where
  "gbk_decode tbl m [] = Inr []"
| "gbk_decode tbl m [c] =
     (if c < 0x80 then Inr [unat c]
      else (case m of Strict \<Rightarrow> Inl UnicodeDecodeError | Ignore \<Rightarrow> Inr []))"
| "gbk_decode tbl m (c # c2 # r) =
     (if c < 0x80 then push (unat c) (gbk_decode tbl m (c2 # r))
      else (case tbl c c2 of
              Some u \<Rightarrow> push u (gbk_decode tbl m r)
            | None \<Rightarrow>
                (case m of
                   Strict \<Rightarrow> Inl UnicodeDecodeError
                 | Ignore \<Rightarrow> gbk_decode tbl m (c2 # r))))"

text \<open>A table that assigns no pair, for inputs that never reach the table.\<close>

definition unassigned :: gbk_table where
  "unassigned c1 c2 = None"

text \<open>Lines 148 to 151 of \<open>ui04.py\<close>: the \<open>try\<close> around the UTF-8 decoding.\<close>

definition decode_chunk :: "gbk_table \<Rightarrow> byte list \<Rightarrow> exn + str" where
  "decode_chunk tbl data =
     (case utf8_decode data of
        Inr output \<Rightarrow> Inr output
      | Inl UnicodeDecodeError \<Rightarrow> gbk_decode tbl Ignore data
      | Inl e \<Rightarrow> Inl e)"

section \<open>The reader: \<open>SSHWorker.receive_output\<close>\<close>

text \<open>The three signals of the worker.\<close>

datatype event = Output str | Error str | Closed

text \<open>
  \<open>buffer.split("\\n", 1)\<close> for a buffer that holds a newline (code point 10): the text
  before the first newline and the text after it.
\<close>

definition split_first :: "str \<Rightarrow> str \<times> str" where
  "split_first buffer =
     (takeWhile (\<lambda>c. c \<noteq> 10) buffer, tl (dropWhile (\<lambda>c. c \<noteq> 10) buffer))"

lemma split_first_shorter:
  "10 \<in> set buffer \<Longrightarrow> length (snd (split_first buffer)) < length buffer"
proof -
  assume "10 \<in> set buffer"
  then have "dropWhile (\<lambda>c. c \<noteq> 10) buffer \<noteq> []"
    by simp
  then have "length (tl (dropWhile (\<lambda>c. c \<noteq> 10) buffer))
               < length (dropWhile (\<lambda>c. c \<noteq> 10) buffer)"
    by (cases "dropWhile (\<lambda>c. c \<noteq> 10) buffer") auto
  also have "\<dots> \<le> length buffer"
    by (rule length_dropWhile_le)
  finally show ?thesis
    by (simp add: split_first_def)
qed

text \<open>Lines 156 to 158: the \<open>while "\\n" in buffer\<close> loop; it returns what it emitted
  and the buffer it leaves.\<close>

function emit_lines :: "str \<Rightarrow> event list \<times> str" where
  "emit_lines buffer =
     (if 10 \<in> set buffer
      then (let line = fst (split_first buffer);
                rest = snd (split_first buffer);
                (evs, buffer') = emit_lines rest
            in (Output (line @ [10]) # evs, buffer'))
      else ([], buffer))"
  by pat_completeness auto
termination
  by (relation "measure length") (auto simp: split_first_shorter)

text \<open>Lines 161 to 163: a buffer of more than 100 characters is emitted as it is.\<close>

definition flush_long :: "str \<Rightarrow> event list \<times> str" where
  "flush_long buffer =
     (if buffer \<noteq> [] \<and> length buffer > 100 then ([Output buffer], []) else ([], buffer))"

text \<open>Lines 153 to 163: what one iteration does with the decoded text.\<close>

definition take_output :: "str \<Rightarrow> str \<Rightarrow> event list \<times> str" where
  "take_output buffer output =
     (let (evs1, b1) = emit_lines (buffer @ output);
          (evs2, b2) = flush_long b1
      in (evs1 @ evs2, b2))"

text \<open>
  What the channel does in one iteration of the loop: \<open>NotReady\<close> when there is no
  shell or \<open>recv_ready()\<close> is false, \<open>Recv data\<close> when \<open>recv(4096)\<close> returns \<open>data\<close>,
  \<open>Raise e\<close> when \<open>recv_ready\<close> or \<open>recv\<close> raises. An iteration is that together with
  the value of \<open>self.is_running\<close> the \<open>except\<close> clause would read. The list of
  iterations is the run of the loop: after the last one the loop condition
  (\<open>self.is_running and self.connection.is_connected\<close>) is found false.
\<close>

datatype channel_op = NotReady | Recv "byte list" | Raise exn

type_synonym iteration = "channel_op \<times> bool"

text \<open>Lines 166 to 169: the \<open>except Exception\<close> clause, followed by \<open>break\<close>.\<close>

definition on_exception :: "exn \<Rightarrow> bool \<Rightarrow> event list" where
  "on_exception e running =
     (if running then [Error (lit ''Connection error: '' @ exn_str e)] else [])"

fun receive_loop :: "gbk_table \<Rightarrow> str \<Rightarrow> iteration list \<Rightarrow> event list \<times> str" where
  "receive_loop tbl buffer [] = ([], buffer)"
| "receive_loop tbl buffer ((NotReady, running) # its) = receive_loop tbl buffer its"
| "receive_loop tbl buffer ((Raise e, running) # its) = (on_exception e running, buffer)"
| "receive_loop tbl buffer ((Recv data, running) # its) =
     (case decode_chunk tbl data of
        Inl e \<Rightarrow> (on_exception e running, buffer)
      | Inr output \<Rightarrow>
          (let (evs, b) = take_output buffer output;
               (evs', b') = receive_loop tbl b its
           in (evs @ evs', b')))"

text \<open>Lines 141 to 173: the loop, the flush of what is left, the closed signal.\<close>

definition receive_output :: "gbk_table \<Rightarrow> iteration list \<Rightarrow> event list" where
  "receive_output tbl its =
     (let (evs, buffer) = receive_loop tbl [] its
      in evs @ (if buffer \<noteq> [] then [Output buffer] else []) @ [Closed])"

text \<open>The chunks the loop read, the text of a chunk, and the text of the output
  events.\<close>

definition decoded :: "gbk_table \<Rightarrow> byte list \<Rightarrow> str" where
  "decoded tbl data = (case decode_chunk tbl data of Inr output \<Rightarrow> output | Inl e \<Rightarrow> [])"

fun delivered :: "iteration list \<Rightarrow> byte list list" where
  "delivered [] = []"
| "delivered ((NotReady, running) # its) = delivered its"
| "delivered ((Raise e, running) # its) = []"
| "delivered ((Recv data, running) # its) = data # delivered its"

fun output_text :: "event list \<Rightarrow> str" where
  "output_text [] = []"
| "output_text (Output t # evs) = t @ output_text evs"
| "output_text (ev # evs) = output_text evs"

section \<open>The session and the terminal: \<open>SSHConnection\<close>, \<open>SSHWorker.send_command\<close>,
  \<open>SSHTerminal.send_command\<close>\<close>

text \<open>
  The dataclass \<open>SSHConnection\<close>. The client and the channel are handles of the SSH
  library; the model keeps whether each is there (\<open>None\<close> or a handle number).
\<close>

record SSHConnection =
  host :: str
  port :: int
  username :: str
  password :: str
  client :: "nat option"
  shell :: "nat option"
  is_connected :: bool
  history :: "str list"
  completions :: "str list"

text \<open>
  What \<open>shell.send\<close> does with the command: it returns the number of bytes it sent, or
  it raises.
\<close>

datatype send_result = Sent nat | SendRaises exn

text \<open>
  Lines 133 to 139. The result is the connection, the signals emitted and the strings
  handed to the channel. The method assigns no field of the connection.
\<close>

definition SSHWorker_send_command ::
  "SSHConnection \<Rightarrow> str \<Rightarrow> send_result \<Rightarrow> SSHConnection \<times> event list \<times> str list" where
  "SSHWorker_send_command connection command r =
     (if shell connection \<noteq> None \<and> is_connected connection
      then (case r of
              Sent n \<Rightarrow> (connection, [], [command @ [10]])
            | SendRaises e \<Rightarrow>
                (connection, [Error (lit ''Failed to send command: '' @ exn_str e)], []))
      else (connection, [], []))"

text \<open>
  \<open>str.strip()\<close>: the characters for which \<open>str.isspace\<close> holds are removed from both
  ends.
\<close>

definition isspace :: "nat \<Rightarrow> bool" where
  "isspace c \<longleftrightarrow>
     (9 \<le> c \<and> c \<le> 13) \<or> (28 \<le> c \<and> c \<le> 32) \<or> c = 133 \<or> c = 160 \<or> c = 5760
     \<or> (8192 \<le> c \<and> c \<le> 8202) \<or> c = 8232 \<or> c = 8233 \<or> c = 8239 \<or> c = 8287
     \<or> c = 12288"

definition strip :: "str \<Rightarrow> str" where
  "strip s = rev (dropWhile isspace (rev (dropWhile isspace s)))"

text \<open>
  The terminal widget, as far as \<open>send_command\<close> reads and writes it: the connection,
  whether there is a worker (and its \<open>is_running\<close>), the prompt, the text shown in the
  output area and the text of the input line.
\<close>

record SSHTerminal =
  connection :: SSHConnection
  worker :: "bool option"
  prompt :: str
  output_edit :: str
  input_edit :: str

definition display_output :: "str \<Rightarrow> SSHTerminal \<Rightarrow> SSHTerminal" where
  "display_output output t = t\<lparr>output_edit := output_edit t @ output\<rparr>"

text \<open>Lines 339 to 344: the history and the completions.\<close>

definition remember :: "str \<Rightarrow> SSHConnection \<Rightarrow> SSHConnection" where
  "remember command c =
     (if command \<noteq> [] \<and> command \<notin> set (history c)
      then (let c1 = c\<lparr>history := history c @ [command]\<rparr>
            in if command \<notin> set (completions c1)
               then c1\<lparr>completions := completions c1 @ [command]\<rparr>
               else c1)
      else c)"

text \<open>Lines 330 to 351.\<close>

definition SSHTerminal_send_command ::
  "SSHTerminal \<Rightarrow> send_result \<Rightarrow> SSHTerminal \<times> event list \<times> str list" where
  "SSHTerminal_send_command t r =
     (let command = strip (input_edit t)
      in if command = [] \<or> \<not> is_connected (connection t) then (t, [], [])
         else
           (let t1 = display_output (prompt t @ command @ [10]) t;
                c1 = remember command (connection t1);
                (c2, evs, sent) =
                  (case worker t1 of
                     None \<Rightarrow> (c1, [], [])
                   | Some running \<Rightarrow> SSHWorker_send_command c1 command r)
            in (t1\<lparr>connection := c2, input_edit := []\<rparr>, evs, sent)))"

text \<open>The operator types a line and presses return, one line after the other.\<close>

fun submit_all :: "SSHTerminal \<Rightarrow> (str \<times> send_result) list \<Rightarrow> SSHTerminal" where
  "submit_all t [] = t"
| "submit_all t ((line, r) # rest) =
     submit_all (fst (SSHTerminal_send_command (t\<lparr>input_edit := line\<rparr>) r)) rest"

section \<open>The telemetry client: \<open>DataVisualizer.websocket_client\<close>\<close>

text \<open>
  The values \<open>json.loads\<close> returns. An object keeps its members in the order of the
  text, as a \<open>dict\<close> does; the parser leaves no key twice. An integer literal of any
  size gives an \<open>int\<close>. \<open>PFloat\<close> is a finite float; \<open>PInfinity True\<close> and
  \<open>PInfinity False\<close> are the floats \<open>inf\<close> and \<open>-inf\<close> (from \<open>Infinity\<close>, or from a
  literal beyond the range of a float), \<open>PNaN\<close> is \<open>nan\<close>.
\<close>

datatype pyval =
    PNone
  | PBool bool
  | PInt int
  | PFloat real
  | PInfinity bool
  | PNaN
  | PStr str
  | PList "pyval list"
  | PDict "(str \<times> pyval) list"

text \<open>The dataclass \<open>WebSocketData\<close>. The constructor checks no type.\<close>

record WebSocketData =
  timestamp :: pyval
  variables :: pyval

text \<open>What the client does that can be seen from outside, in order.\<close>

datatype action =
    SetStatus str
  | Sleep nat
  | DataUpdated WebSocketData
  | Print str

record DataVisualizer =
  data_buffer :: "WebSocketData list"
  max_data_points :: nat
  self_variables :: "str list"
  ws_status :: str
  log :: "action list"
  table_rows :: "(str \<times> pyval) list"
  plot_variables :: "str list"
  plot_times :: "pyval list"
  plot_values :: "(str \<times> pyval list) list"

text \<open>\<open>DataVisualizer.__init__\<close>, with the label \<open>init_ui\<close> gives the status.\<close>

definition DataVisualizer_init :: DataVisualizer where
  "DataVisualizer_init =
     \<lparr>data_buffer = [], max_data_points = 100, self_variables = [],
      ws_status = lit ''Disconnected'', log = [], table_rows = [],
      plot_variables = [], plot_times = [], plot_values = []\<rparr>"

text \<open>\<open>d.get(key, default)\<close>: only a \<open>dict\<close> has the method.\<close>

definition dict_get :: "pyval \<Rightarrow> str \<Rightarrow> pyval \<Rightarrow> exn + pyval" where
  "dict_get d key dflt =
     (case d of
        PDict kvs \<Rightarrow> Inr (case map_of kvs key of Some v \<Rightarrow> v | None \<Rightarrow> dflt)
      | _ \<Rightarrow> Inl AttributeError)"

text \<open>
  Lines 692 to 695 of \<open>ui04.py\<close> (127 to 130 of \<open>websockui.py\<close>): the signal, the append
  and the eviction of the oldest record.
\<close>

definition store :: "WebSocketData \<Rightarrow> DataVisualizer \<Rightarrow> DataVisualizer" where
  "store ws_data s =
     (let s1 = s\<lparr>log := log s @ [DataUpdated ws_data],
                 data_buffer := data_buffer s @ [ws_data]\<rparr>
      in if length (data_buffer s1) > max_data_points s1
         then s1\<lparr>data_buffer := tl (data_buffer s1)\<rparr>
         else s1)"

text \<open>
  An inbound message, as the loop meets it: the clock when it arrives and what
  \<open>json.loads\<close> makes of it (the parser is library code).
\<close>

type_synonym message = "real \<times> (exn + pyval)"

text \<open>The body of the inner \<open>try\<close>.\<close>

definition try_message :: "message \<Rightarrow> DataVisualizer \<Rightarrow> exn + DataVisualizer" where
  "try_message m s =
     (case snd m of
        Inl e \<Rightarrow> Inl e
      | Inr data \<Rightarrow>
          (case dict_get data (lit ''timestamp'') (PFloat (fst m)) of
             Inl e \<Rightarrow> Inl e
           | Inr ts \<Rightarrow>
               (case dict_get data (lit ''variables'') (PDict []) of
                  Inl e \<Rightarrow> Inl e
                | Inr vs \<Rightarrow> Inr (store \<lparr>timestamp = ts, variables = vs\<rparr> s))))"

text \<open>
  The two files differ in the handlers of the inner \<open>try\<close>: both continue on
  \<open>json.JSONDecodeError\<close>; \<open>ui04.py\<close> (as \<open>ui02.py\<close> and \<open>ui03.py\<close>) also catches
  \<open>Exception\<close> and prints it, \<open>websockui.py\<close> does not. The result is the state and the
  exception that leaves the \<open>async for\<close>, if any.
\<close>

datatype source_file = Ui04 | Websockui

definition on_message ::
  "source_file \<Rightarrow> message \<Rightarrow> DataVisualizer \<Rightarrow> DataVisualizer \<times> exn option" where
  "on_message f m s =
     (case try_message m s of
        Inr s' \<Rightarrow> (s', None)
      | Inl JSONDecodeError \<Rightarrow> (s, None)
      | Inl e \<Rightarrow>
          (case f of
             Ui04 \<Rightarrow>
               (s\<lparr>log := log s @ [Print (lit ''Data processing error: '' @ exn_str e)]\<rparr>, None)
           | Websockui \<Rightarrow> (s, Some e)))"

fun receive_messages ::
  "source_file \<Rightarrow> message list \<Rightarrow> DataVisualizer \<Rightarrow> DataVisualizer \<times> exn option" where
  "receive_messages f [] s = (s, None)"
| "receive_messages f (m # ms) s =
     (case on_message f m s of
        (s', Some e) \<Rightarrow> (s', Some e)
      | (s', None) \<Rightarrow> receive_messages f ms s')"

text \<open>
  One turn of the \<open>while True\<close> loop. \<open>websockets.connect\<close> raises, or it gives a
  connection whose messages are read until the stream ends: the iterator stops without
  an exception when the peer closes the connection normally (\<open>ClosedOK\<close>), and raises
  otherwise. The loop has no exit, so a run is given by the list of its turns so far.
\<close>

datatype stream_end = ClosedOK | ClosedError exn

datatype attempt = ConnectRaises exn | Connected "message list" stream_end

text \<open>The outer \<open>except Exception\<close> clause: the label and the sleep of three seconds.\<close>

definition retry :: "DataVisualizer \<Rightarrow> DataVisualizer" where
  "retry s =
     s\<lparr>ws_status := lit ''Disconnected (retrying...)'',
       log := log s @ [SetStatus (lit ''Disconnected (retrying...)''), Sleep 3]\<rparr>"

definition connected :: "DataVisualizer \<Rightarrow> DataVisualizer" where
  "connected s =
     s\<lparr>ws_status := lit ''Connected'', log := log s @ [SetStatus (lit ''Connected'')]\<rparr>"

fun websocket_client :: "source_file \<Rightarrow> attempt list \<Rightarrow> DataVisualizer \<Rightarrow> DataVisualizer" where
  "websocket_client f [] s = s"
| "websocket_client f (ConnectRaises e # rest) s = websocket_client f rest (retry s)"
| "websocket_client f (Connected ms fin # rest) s =
     (case receive_messages f ms (connected s) of
        (s', Some e) \<Rightarrow> websocket_client f rest (retry s')
      | (s', None) \<Rightarrow>
          (case fin of
             ClosedError e \<Rightarrow> websocket_client f rest (retry s')
           | ClosedOK \<Rightarrow> websocket_client f rest s'))"

section \<open>The presenter: \<open>DataVisualizer.update_plot\<close>\<close>



text \<open>
  \<open>f"{value:.2f}"\<close> accepts a number and raises on anything else. An \<open>int\<close> is first
  converted to a float, which raises \<open>OverflowError\<close> when it rounds to a magnitude of
  \<open>2 ^ 1024\<close> or more; the largest float is \<open>2 ^ 1024 - 2 ^ 971\<close>, so the integers that
  convert are those below \<open>2 ^ 1024 - 2 ^ 970\<close> in magnitude. The table cell is kept as
  the number it shows; the two decimals are a matter of display.
\<close>

definition float_range :: "int \<Rightarrow> bool" where
  "float_range i \<longleftrightarrow> \<bar>i\<bar> < 2 ^ 1024 - 2 ^ 970"

fun format_2f :: "pyval \<Rightarrow> exn + pyval" where
  "format_2f (PInt i) = (if float_range i then Inr (PInt i) else Inl OverflowError)"
| "format_2f (PFloat x) = Inr (PFloat x)"
| "format_2f (PInfinity p) = Inr (PInfinity p)"
| "format_2f PNaN = Inr PNaN"
| "format_2f (PBool b) = Inr (PBool b)"
| "format_2f (PStr t) = Inl ValueError"
| "format_2f v = Inl TypeError"







section \<open>Notions of the statements and inputs of the examples\<close>

text \<open>
  The default list of completions and the constructor \<open>SSHConnection(host=...)\<close> with
  its defaults.
\<close>

definition default_completions :: "str list" where
  "default_completions =
     map lit [''ls'', ''cd'', ''pwd'', ''mkdir'', ''rm'', ''cp'', ''mv'', ''cat'', ''grep'', ''ps'',
              ''top'', ''ifconfig'', ''ping'', ''sudo'', ''apt-get'', ''yum'', ''docker'', ''git'',
              ''ssh'']"

definition SSHConnection_new :: "str \<Rightarrow> SSHConnection" where
  "SSHConnection_new h =
     \<lparr>host = h, port = 22, username = [], password = [], client = None, shell = None,
      is_connected = False, history = [], completions = default_completions\<rparr>"

text \<open>
  The terminal of a connection after \<open>init_ssh\<close> went through without an exception:
  the client and the channel are there, the flag is set and the worker runs. The
  greeting \<open>init_ssh\<close> writes to the output area is not part of it.
\<close>

definition terminal_of :: "SSHConnection \<Rightarrow> SSHTerminal" where
  "terminal_of c =
     \<lparr>connection = c\<lparr>client := Some 0, shell := Some 1, is_connected := True\<rparr>,
      worker = Some True,
      prompt = username c @ lit ''@'' @ host c @ lit '':~$ '',
      output_edit = [],
      input_edit = []\<rparr>"

text \<open>What a value is: an object, a number the table can format (an \<open>int\<close> within
  the range of a float, a float, a \<open>bool\<close>).\<close>

fun is_dict :: "pyval \<Rightarrow> bool" where
  "is_dict (PDict kvs) = True"
| "is_dict v = False"


text \<open>The value a record gives for a variable, with 0 for a variable it lacks.\<close>

definition value_of :: "str \<Rightarrow> WebSocketData \<Rightarrow> pyval" where
  "value_of var d =
     (case variables d of
        PDict kvs \<Rightarrow> (case map_of kvs var of Some v \<Rightarrow> v | None \<Rightarrow> PInt 0)
      | _ \<Rightarrow> PNone)"

text \<open>The record number \<open>i\<close> of a feed that counts its timestamps and sends no variable.\<close>

definition numbered :: "nat \<Rightarrow> WebSocketData" where
  "numbered i = \<lparr>timestamp = PInt (int i), variables = PDict []\<rparr>"

section \<open>Properties of the decoders and of the reader\<close>

declare emit_lines.simps [simp del]
declare utf8_decode.simps [simp del]

lemma split_first_join:
  "10 \<in> set buffer \<Longrightarrow> fst (split_first buffer) @ 10 # snd (split_first buffer) = buffer"
proof -
  assume a: "10 \<in> set buffer"
  then have "dropWhile (\<lambda>c. c \<noteq> 10) buffer \<noteq> []" by simp
  then obtain r where r: "dropWhile (\<lambda>c. c \<noteq> 10) buffer = hd (dropWhile (\<lambda>c. c \<noteq> 10) buffer) # r"
    by (cases "dropWhile (\<lambda>c. c \<noteq> 10) buffer") auto
  have "hd (dropWhile (\<lambda>c. c \<noteq> 10) buffer) = 10"
    using a hd_dropWhile[of "\<lambda>c. c \<noteq> 10" buffer] by simp
  with r have "dropWhile (\<lambda>c. c \<noteq> 10) buffer = 10 # tl (dropWhile (\<lambda>c. c \<noteq> 10) buffer)"
    by (metis list.sel(3))
  then have "takeWhile (\<lambda>c. c \<noteq> 10) buffer @ 10 # tl (dropWhile (\<lambda>c. c \<noteq> 10) buffer) = buffer"
    by (metis takeWhile_dropWhile_id)
  then show ?thesis by (simp add: split_first_def)
qed

lemma emit_lines_step:
  "10 \<in> set buffer \<Longrightarrow>
     emit_lines buffer =
       (Output (fst (split_first buffer) @ [10]) # fst (emit_lines (snd (split_first buffer))),
        snd (emit_lines (snd (split_first buffer))))"
  by (subst emit_lines.simps) (simp add: Let_def split: prod.splits)

lemma emit_lines_plain: "10 \<notin> set buffer \<Longrightarrow> emit_lines buffer = ([], buffer)"
  by (subst emit_lines.simps) simp

lemma output_text_append: "output_text (xs @ ys) = output_text xs @ output_text ys"
  by (induction xs rule: output_text.induct) auto

lemma emit_lines_text:
  "output_text (fst (emit_lines buffer)) @ snd (emit_lines buffer) = buffer"
proof (induction buffer rule: emit_lines.induct)
  case (1 buffer)
  show ?case
  proof (cases "10 \<in> set buffer")
    case True
    with 1 have "output_text (fst (emit_lines (snd (split_first buffer))))
                   @ snd (emit_lines (snd (split_first buffer))) = snd (split_first buffer)"
      by simp
    then have "output_text (fst (emit_lines buffer)) @ snd (emit_lines buffer)
                 = fst (split_first buffer) @ 10 # snd (split_first buffer)"
      using True by (simp add: emit_lines_step)
    then show ?thesis using True by (simp add: split_first_join)
  next
    case False
    then show ?thesis by (simp add: emit_lines_plain)
  qed
qed

lemma emit_lines_rest: "10 \<notin> set (snd (emit_lines buffer))"
proof (induction buffer rule: emit_lines.induct)
  case (1 buffer)
  show ?case
  proof (cases "10 \<in> set buffer")
    case True
    with 1 have "10 \<notin> set (snd (emit_lines (snd (split_first buffer))))"
      by simp
    then show ?thesis using True by (simp add: emit_lines_step)
  next
    case False
    then show ?thesis by (simp add: emit_lines_plain)
  qed
qed

lemma emit_lines_closed: "Closed \<notin> set (fst (emit_lines buffer))"
proof (induction buffer rule: emit_lines.induct)
  case (1 buffer)
  show ?case
  proof (cases "10 \<in> set buffer")
    case True
    with 1 have "Closed \<notin> set (fst (emit_lines (snd (split_first buffer))))"
      by simp
    then show ?thesis using True by (simp add: emit_lines_step)
  next
    case False
    then show ?thesis by (simp add: emit_lines_plain)
  qed
qed

lemma take_output_text:
  "output_text (fst (take_output buffer output)) @ snd (take_output buffer output) = buffer @ output"
  using emit_lines_text[of "buffer @ output"]
  by (auto simp: take_output_def flush_long_def output_text_append split: prod.splits)

lemma take_output_closed: "Closed \<notin> set (fst (take_output buffer output))"
  using emit_lines_closed[of "buffer @ output"]
  by (auto simp: take_output_def flush_long_def split: prod.splits)

lemma take_output_short: "length (snd (take_output buffer output)) \<le> 100"
  by (auto simp: take_output_def flush_long_def split: prod.splits)

lemma take_output_rest: "10 \<notin> set (snd (take_output buffer output))"
  using emit_lines_rest[of "buffer @ output"]
  by (auto simp: take_output_def flush_long_def split: prod.splits)

lemma take_output_flush:
  "10 \<notin> set (buffer @ output) \<Longrightarrow> 100 < length (buffer @ output) \<Longrightarrow>
     take_output buffer output = ([Output (buffer @ output)], [])"
  by (auto simp: take_output_def flush_long_def emit_lines_plain)

lemma gbk_ignore_total: "\<exists>t. gbk_decode tbl Ignore bs = Inr t"
proof (induction tbl Ignore bs rule: gbk_decode.induct)
  case (1 tbl)
  then show ?case by simp
next
  case (2 tbl c)
  then show ?case by simp
next
  case (3 tbl c c2 r)
  then show ?case by (auto split: option.splits)
qed

lemma utf8_decode_error: "utf8_decode bs = Inl e \<Longrightarrow> e = UnicodeDecodeError"
proof (induction bs rule: utf8_decode.induct)
  case (1 bs)
  show ?case
  proof (cases "bs = []")
    case True
    with 1(2) show ?thesis by (simp add: utf8_decode.simps)
  next
    case False
    show ?thesis
    proof (cases "utf8_first bs")
      case None
      with False 1(2) show ?thesis by (simp add: utf8_decode.simps[of bs])
    next
      case (Some ck)
      obtain c k where ck: "ck = (c, k)" by (cases ck)
      from False Some ck 1(2) have "push c (utf8_decode (drop k bs)) = Inl e"
        by (simp add: utf8_decode.simps[of bs])
      then have "utf8_decode (drop k bs) = Inl e"
        by (cases "utf8_decode (drop k bs)") auto
      with 1(1)[OF False Some ck[symmetric]] show ?thesis by simp
    qed
  qed
qed

lemma decode_chunk_total: "\<exists>t. decode_chunk tbl data = Inr t"
proof (cases "utf8_decode data")
  case (Inl e)
  then have "e = UnicodeDecodeError" by (rule utf8_decode_error)
  with Inl show ?thesis using gbk_ignore_total[of tbl data] by (simp add: decode_chunk_def)
next
  case (Inr t)
  then show ?thesis by (simp add: decode_chunk_def)
qed


lemma receive_loop_closed: "Closed \<notin> set (fst (receive_loop tbl buffer its))"
proof (induction tbl buffer its rule: receive_loop.induct)
  case (4 tbl buffer data running its)
  obtain outp where d: "decode_chunk tbl data = Inr outp"
    using decode_chunk_total by blast
  obtain evs b where t: "take_output buffer outp = (evs, b)"
    by (cases "take_output buffer outp")
  have "Closed \<notin> set evs"
    using take_output_closed[of buffer outp] t by simp
  moreover have "Closed \<notin> set (fst (receive_loop tbl b its))"
    using 4[OF d t[symmetric] refl] .
  ultimately show ?case
    using d t by (auto split: prod.splits)
qed (simp_all add: on_exception_def)

lemma receive_loop_short:
  "length buffer \<le> 100 \<Longrightarrow> length (snd (receive_loop tbl buffer its)) \<le> 100"
proof (induction tbl buffer its rule: receive_loop.induct)
  case (4 tbl buffer data running its)
  obtain outp where d: "decode_chunk tbl data = Inr outp"
    using decode_chunk_total by blast
  obtain evs b where t: "take_output buffer outp = (evs, b)"
    by (cases "take_output buffer outp")
  have "length b \<le> 100"
    using take_output_short[of buffer outp] t by simp
  then have "length (snd (receive_loop tbl b its)) \<le> 100"
    using 4(1)[OF d t[symmetric] refl] by simp
  then show ?case
    using d t by (auto split: prod.splits)
qed simp_all

lemma receive_loop_text:
  "output_text (fst (receive_loop tbl buffer its)) @ snd (receive_loop tbl buffer its)
     = buffer @ concat (map (decoded tbl) (delivered its))"
proof (induction tbl buffer its rule: receive_loop.induct)
  case (4 tbl buffer data running its)
  obtain outp where d: "decode_chunk tbl data = Inr outp"
    using decode_chunk_total by blast
  obtain evs b where t: "take_output buffer outp = (evs, b)"
    by (cases "take_output buffer outp")
  have 1: "output_text evs @ b = buffer @ outp"
    using take_output_text[of buffer outp] t by simp
  have 2: "output_text (fst (receive_loop tbl b its)) @ snd (receive_loop tbl b its)
             = b @ concat (map (decoded tbl) (delivered its))"
    using 4[OF d t[symmetric] refl] .
  have "output_text (evs @ fst (receive_loop tbl b its)) @ snd (receive_loop tbl b its)
          = (buffer @ outp) @ concat (map (decoded tbl) (delivered its))"
    using 1 2 by (simp add: output_text_append)
  moreover have "decoded tbl data = outp"
    using d by (simp add: decoded_def)
  ultimately show ?case
    using d t by (auto split: prod.splits)
qed (simp_all add: on_exception_def)


lemma utf8_first_append: "utf8_first a = Some (c, k) \<Longrightarrow> utf8_first (a @ b) = Some (c, k)"
  by (cases a) (auto split: if_splits list.splits)

lemma push_Inr: "push c r = Inr s \<Longrightarrow> \<exists>s'. r = Inr s' \<and> s = c # s'"
  by (cases r) auto

lemma utf8_decode_append:
  "utf8_decode a = Inr s \<Longrightarrow> utf8_decode b = Inr t \<Longrightarrow> utf8_decode (a @ b) = Inr (s @ t)"
proof (induction a arbitrary: s rule: utf8_decode.induct)
  case (1 bs)
  show ?case
  proof (cases "bs = []")
    case True
    with 1(2,3) show ?thesis by (simp add: utf8_decode.simps[of "[]"])
  next
    case False
    show ?thesis
    proof (cases "utf8_first bs")
      case None
      with False 1(2) show ?thesis by (simp add: utf8_decode.simps[of bs])
    next
      case (Some ck)
      obtain c k where ck: "ck = (c, k)" by (cases ck)
      from False Some ck 1(2) have "push c (utf8_decode (drop k bs)) = Inr s"
        by (simp add: utf8_decode.simps[of bs])
      then obtain s' where s': "utf8_decode (drop k bs) = Inr s'" "s = c # s'"
        using push_Inr by blast
      have k: "k \<le> length bs"
        using Some ck utf8_first_takes by blast
      have "utf8_decode (drop k bs @ b) = Inr (s' @ t)"
        using 1(1)[OF False Some ck[symmetric] s'(1) 1(3)] .
      moreover have "utf8_first (bs @ b) = Some (c, k)"
        using Some ck by (simp add: utf8_first_append)
      ultimately show ?thesis
        using False k s'(2) by (simp add: utf8_decode.simps[of "bs @ b"])
    qed
  qed
qed

lemma decoded_utf8: "utf8_decode d = Inr t \<Longrightarrow> decoded tbl d = t"
  by (simp add: decoded_def decode_chunk_def)

lemma utf8_decode_concat:
  "\<forall>d \<in> set ds. \<exists>t. utf8_decode d = Inr t \<Longrightarrow>
     utf8_decode (concat ds) = Inr (concat (map (decoded tbl) ds))"
proof (induction ds)
  case Nil
  show ?case by (simp add: utf8_decode.simps[of "[]"])
next
  case (Cons d ds)
  then obtain t where t: "utf8_decode d = Inr t" by auto
  have "utf8_decode (concat ds) = Inr (concat (map (decoded tbl) ds))"
    using Cons by simp
  with t have "utf8_decode (d @ concat ds) = Inr (t @ concat (map (decoded tbl) ds))"
    by (rule utf8_decode_append)
  then show ?case using t by (simp add: decoded_utf8)
qed

lemma receive_output_split:
  "receive_output tbl its =
     fst (receive_loop tbl [] its)
     @ (if snd (receive_loop tbl [] its) \<noteq> [] then [Output (snd (receive_loop tbl [] its))] else [])
     @ [Closed]"
  by (simp add: receive_output_def split: prod.splits)

text \<open>
  Claim C3. However the loop of \<open>receive_output\<close> ends (the flags found false, or an
  exception of the channel, after any number of iterations), the closed signal is the
  last event, it is emitted exactly once, and a buffer that is not empty when the loop
  ends is emitted as the output event just before it.
\<close>

theorem receive_output_closed_once:
  "last (receive_output tbl its) = Closed
   \<and> count_list (receive_output tbl its) Closed = 1
   \<and> (snd (receive_loop tbl [] its) \<noteq> [] \<longrightarrow>
        last (butlast (receive_output tbl its)) = Output (snd (receive_loop tbl [] its)))"
proof -
  have "count_list (fst (receive_loop tbl [] its)) Closed = 0"
    using receive_loop_closed[of tbl "[]" its] by (simp add: count_list_0_iff)
  then show ?thesis
    by (simp add: receive_output_split butlast_append)
qed

text \<open>
  A run for C3: one chunk \<open>a\<close> without a newline, then an exception of the channel. The
  error, the flush of the buffer and the closed signal follow in this order.
\<close>

theorem receive_output_closed_once_witness:
  "snd (receive_loop unassigned [] [(Recv [0x61], True), (Raise (OSError [120]), True)]) = [97]
   \<and> receive_output unassigned [(Recv [0x61], True), (Raise (OSError [120]), True)]
       = [Error (lit ''Connection error: '' @ [120]), Output [97], Closed]
   \<and> last (receive_output unassigned [(Recv [0x61], True), (Raise (OSError [120]), True)]) = Closed
   \<and> count_list (receive_output unassigned [(Recv [0x61], True), (Raise (OSError [120]), True)]) Closed = 1
   \<and> last (butlast (receive_output unassigned [(Recv [0x61], True), (Raise (OSError [120]), True)]))
       = Output [97]"
proof -
  have d: "decode_chunk unassigned [0x61] = Inr [97]"
    by (simp add: decode_chunk_def utf8_decode.simps)
  have l: "receive_loop unassigned [] [(Recv [0x61], True), (Raise (OSError [120]), True)]
             = ([Error (lit ''Connection error: '' @ [120])], [97])"
    by (simp add: d take_output_def emit_lines_plain flush_long_def on_exception_def)
  have r: "receive_output unassigned [(Recv [0x61], True), (Raise (OSError [120]), True)]
             = [Error (lit ''Connection error: '' @ [120]), Output [97], Closed]"
    unfolding receive_output_def l by simp
  show ?thesis
    using receive_output_closed_once[of unassigned "[(Recv [0x61], True), (Raise (OSError [120]), True)]"]
    unfolding r l by simp
qed

lemma take_output_plain:
  "10 \<notin> set (buffer @ output) \<Longrightarrow>
     take_output buffer output =
       (if 100 < length (buffer @ output) then ([Output (buffer @ output)], [])
        else ([], buffer @ output))"
  by (auto simp: take_output_def flush_long_def emit_lines_plain)

lemma receive_loop_recv:
  "decode_chunk tbl data = Inr outp \<Longrightarrow>
     receive_loop tbl buffer ((Recv data, running) # its) =
       (fst (take_output buffer outp) @ fst (receive_loop tbl (snd (take_output buffer outp)) its),
        snd (receive_loop tbl (snd (take_output buffer outp)) its))"
  by (simp split: prod.splits)

lemma output_text_nonempty: "output_text evs \<noteq> [] \<Longrightarrow> \<exists>t. Output t \<in> set evs"
  by (induction evs rule: output_text.induct) auto

lemma receive_loop_flushes:
  "10 \<notin> set buffer \<Longrightarrow> \<forall>d \<in> set (delivered its). 10 \<notin> set (decoded tbl d) \<Longrightarrow>
     Output t \<in> set (fst (receive_loop tbl buffer its)) \<Longrightarrow> 10 \<notin> set t \<and> 100 < length t"
proof (induction tbl buffer its rule: receive_loop.induct)
  case (1 tbl buffer)
  then show ?case by simp
next
  case (2 tbl buffer running its)
  then show ?case by simp
next
  case (3 tbl buffer e running its)
  then show ?case by (simp add: on_exception_def split: if_splits)
next
  case (4 tbl buffer data running its)
  obtain outp where d: "decode_chunk tbl data = Inr outp"
    using decode_chunk_total by blast
  then have dd: "decoded tbl data = outp"
    by (simp add: decoded_def)
  with 4(2,3) have free: "10 \<notin> set (buffer @ outp)"
    by simp
  obtain evs b where tk: "take_output buffer outp = (evs, b)"
    by (cases "take_output buffer outp")
  have b: "10 \<notin> set b"
    using take_output_rest[of buffer outp] tk by simp
  have rest: "\<forall>d \<in> set (delivered its). 10 \<notin> set (decoded tbl d)"
    using 4(3) by simp
  have "Output t \<in> set evs \<or> Output t \<in> set (fst (receive_loop tbl b its))"
    using 4(4) d tk by (auto split: prod.splits)
  then show ?case
  proof
    assume "Output t \<in> set evs"
    then show ?thesis
      using free tk by (auto simp: take_output_plain split: if_splits)
  next
    assume "Output t \<in> set (fst (receive_loop tbl b its))"
    then show ?thesis
      using 4(1)[OF d tk[symmetric] refl b rest] by simp
  qed
qed

lemma utf8_decode_ascii: "\<forall>b \<in> set bs. b < 0x80 \<Longrightarrow> utf8_decode bs = Inr (map unat bs)"
proof (induction bs)
  case Nil
  show ?case by (simp add: utf8_decode.simps[of "[]"])
next
  case (Cons b bs)
  then show ?case by (simp add: utf8_decode.simps[of "b # bs"])
qed


text \<open>
  Claim C9. When the buffer together with the newly decoded text holds no newline and
  is longer than 100 characters, the iteration emits exactly one output event with the
  whole of it and leaves the buffer empty: for the text of one iteration, and for the
  loop, which emits that event in this very iteration and goes on with an empty
  buffer. After every iteration the buffer holds at most 100 characters and no newline,
  and so does the buffer the loop ends with. Over any number of reads whose decoded
  texts hold no newline, once more than 100 characters have been delivered the loop has
  emitted an output event, and every output event it emits is such a flush: longer
  than 100 characters and without a newline.
\<close>

theorem flush_before_newline:
  "(10 \<notin> set (buffer @ output) \<and> 100 < length (buffer @ output) \<longrightarrow>
      take_output buffer output = ([Output (buffer @ output)], []))
   \<and> length (snd (take_output buffer output)) \<le> 100
   \<and> 10 \<notin> set (snd (take_output buffer output))
   \<and> length (snd (receive_loop tbl [] its)) \<le> 100
   \<and> (decode_chunk tbl data = Inr output \<and> 10 \<notin> set (buffer @ output)
        \<and> 100 < length (buffer @ output) \<longrightarrow>
          receive_loop tbl buffer ((Recv data, running) # its) =
            (Output (buffer @ output) # fst (receive_loop tbl [] its),
             snd (receive_loop tbl [] its)))
   \<and> ((\<forall>d \<in> set (delivered its). 10 \<notin> set (decoded tbl d))
        \<and> 100 < length (concat (map (decoded tbl) (delivered its))) \<longrightarrow>
          (\<exists>t. Output t \<in> set (fst (receive_loop tbl [] its)) \<and> 10 \<notin> set t \<and> 100 < length t)
          \<and> (\<forall>t. Output t \<in> set (fst (receive_loop tbl [] its)) \<longrightarrow> 10 \<notin> set t \<and> 100 < length t))"
proof -
  have one: "10 \<notin> set (buffer @ output) \<and> 100 < length (buffer @ output) \<longrightarrow>
      take_output buffer output = ([Output (buffer @ output)], [])"
    using take_output_flush[of buffer "output"] by blast
  have short: "length (snd (receive_loop tbl [] its)) \<le> 100"
    using receive_loop_short[of "[]" tbl its] by simp
  have step: "decode_chunk tbl data = Inr output \<and> 10 \<notin> set (buffer @ output)
        \<and> 100 < length (buffer @ output) \<longrightarrow>
          receive_loop tbl buffer ((Recv data, running) # its) =
            (Output (buffer @ output) # fst (receive_loop tbl [] its),
             snd (receive_loop tbl [] its))"
    using take_output_flush[of buffer "output"] by (auto split: prod.splits)
  have run: "(\<forall>d \<in> set (delivered its). 10 \<notin> set (decoded tbl d))
        \<and> 100 < length (concat (map (decoded tbl) (delivered its))) \<longrightarrow>
          (\<exists>t. Output t \<in> set (fst (receive_loop tbl [] its)) \<and> 10 \<notin> set t \<and> 100 < length t)
          \<and> (\<forall>t. Output t \<in> set (fst (receive_loop tbl [] its)) \<longrightarrow> 10 \<notin> set t \<and> 100 < length t)"
  proof (intro impI, elim conjE)
    assume free: "\<forall>d \<in> set (delivered its). 10 \<notin> set (decoded tbl d)"
      and long: "100 < length (concat (map (decoded tbl) (delivered its)))"
    have all: "10 \<notin> set t \<and> 100 < length t"
      if "Output t \<in> set (fst (receive_loop tbl [] its))" for t
      using receive_loop_flushes[of "[]" its tbl t] free that by simp
    have "output_text (fst (receive_loop tbl [] its)) @ snd (receive_loop tbl [] its)
            = concat (map (decoded tbl) (delivered its))"
      using receive_loop_text[of tbl "[]" its] by simp
    then have "length (output_text (fst (receive_loop tbl [] its)))
                 + length (snd (receive_loop tbl [] its))
                 = length (concat (map (decoded tbl) (delivered its)))"
      by (metis length_append)
    then have "output_text (fst (receive_loop tbl [] its)) \<noteq> []"
      using long receive_loop_short[of "[]" tbl its] by auto
    then obtain t where "Output t \<in> set (fst (receive_loop tbl [] its))"
      using output_text_nonempty by blast
    then show "(\<exists>t. Output t \<in> set (fst (receive_loop tbl [] its)) \<and> 10 \<notin> set t \<and> 100 < length t)
          \<and> (\<forall>t. Output t \<in> set (fst (receive_loop tbl [] its)) \<longrightarrow> 10 \<notin> set t \<and> 100 < length t)"
      using all by blast
  qed
  show ?thesis
    using one take_output_short[of buffer "output"] take_output_rest[of buffer "output"]
      short step run
    by (intro conjI) assumption+
qed


text \<open>
  A run for C9: a read of 60 characters, an idle iteration and a read of 50 more, none
  of them a newline. The second read emits all 110 characters and empties the buffer.
\<close>

theorem flush_before_newline_witness:
  "decode_chunk unassigned (replicate 60 0x61) = Inr (replicate 60 97)
   \<and> decode_chunk unassigned (replicate 50 0x62) = Inr (replicate 50 98)
   \<and> 10 \<notin> set (replicate 60 (97::nat) @ replicate 50 98)
   \<and> 100 < length (replicate 60 (97::nat) @ replicate 50 98)
   \<and> take_output (replicate 60 97) (replicate 50 98)
       = ([Output (replicate 60 97 @ replicate 50 98)], [])
   \<and> receive_loop unassigned []
        [(Recv (replicate 60 0x61), True), (NotReady, True), (Recv (replicate 50 0x62), True)]
       = ([Output (replicate 60 97 @ replicate 50 98)], [])"
proof -
  have a: "decode_chunk unassigned (replicate 60 0x61) = Inr (replicate 60 97)"
    by (simp add: decode_chunk_def utf8_decode_ascii)
  have b: "decode_chunk unassigned (replicate 50 0x62) = Inr (replicate 50 98)"
    by (simp add: decode_chunk_def utf8_decode_ascii)
  have first: "take_output [] (replicate 60 97) = ([], replicate 60 97)"
    by (simp add: take_output_plain)
  have "receive_loop unassigned (replicate 60 97) [(Recv (replicate 50 0x62), True)]
          = (Output (replicate 60 97 @ replicate 50 98) # fst (receive_loop unassigned [] []),
             snd (receive_loop unassigned [] []))"
    using flush_before_newline[of "replicate 60 97" "replicate 50 98" unassigned "[]"
        "replicate 50 0x62" True] b
    by simp
  then have "receive_loop unassigned []
        [(Recv (replicate 60 0x61), True), (NotReady, True), (Recv (replicate 50 0x62), True)]
       = ([Output (replicate 60 97 @ replicate 50 98)], [])"
    by (simp add: receive_loop_recv[OF a] first del: receive_loop.simps(4))
  then show ?thesis
    using a b by (simp add: take_output_plain)
qed

text \<open>
  Claim C8, as stated, fails: the fallback decodes with \<open>errors="ignore"\<close>, which leaves
  undecodable bytes out and puts nothing in their place. The chunk \<open>b"\\xff"\<close> is not
  valid UTF-8 and decodes to the empty text: no substitute, and the whole chunk is lost.
\<close>

theorem undecodable_byte_dropped:
  "utf8_decode [0xFF] = Inl UnicodeDecodeError \<and> decode_chunk unassigned [0xFF] = Inr []"
  by (simp add: decode_chunk_def utf8_decode.simps)

text \<open>
  Claim C8, amended. Decoding a chunk never raises and always yields a text (which may
  be empty): a chunk that is valid UTF-8 decodes as UTF-8, and any other chunk is
  decoded by the GBK codec with \<open>errors="ignore"\<close>, where undecodable bytes are left
  out rather than substituted.
\<close>

theorem decode_chunk_never_raises:
  "(\<exists>t. decode_chunk tbl data = Inr t)
   \<and> (\<forall>t. utf8_decode data = Inr t \<longrightarrow> decode_chunk tbl data = Inr t)
   \<and> ((\<exists>e. utf8_decode data = Inl e) \<longrightarrow> decode_chunk tbl data = gbk_decode tbl Ignore data)"
proof -
  have "decode_chunk tbl data = gbk_decode tbl Ignore data" if "utf8_decode data = Inl e" for e
    using that utf8_decode_error[OF that] by (simp add: decode_chunk_def)
  then show ?thesis
    using decode_chunk_total[of tbl data] by (auto simp: decode_chunk_def)
qed

text \<open>
  Both cases of C8: the chunk \<open>b"a"\<close>, and the chunk \<open>b"\\xa9"\<close> that UTF-8 rejects.
\<close>

theorem decode_chunk_never_raises_witness:
  "utf8_decode [0x61] = Inr [97] \<and> decode_chunk unassigned [0x61] = Inr [97]
   \<and> utf8_decode [0xA9] = Inl UnicodeDecodeError
   \<and> decode_chunk unassigned [0xA9] = gbk_decode unassigned Ignore [0xA9]
   \<and> gbk_decode unassigned Ignore [0xA9] = Inr []"
  using decode_chunk_never_raises[of unassigned "[0x61]"]
    decode_chunk_never_raises[of unassigned "[0xA9]"]
  by (simp add: utf8_decode.simps)

text \<open>
  Claim C1, as stated, fails: each chunk is decoded on its own. The two bytes of
  \<open>U+00E9\<close> delivered in one read give that character; delivered in two reads, each
  byte fails as UTF-8, falls back to GBK as a lead byte with nothing after it, and is
  left out. The delivered bytes are the same and the emitted text is not.
\<close>

theorem split_character_counterexample:
  "concat (delivered [(Recv [0xC3], True), (Recv [0xA9], True)])
     = concat (delivered [(Recv [0xC3, 0xA9], True)])
   \<and> output_text (receive_output unassigned [(Recv [0xC3], True), (Recv [0xA9], True)]) = []
   \<and> output_text (receive_output unassigned [(Recv [0xC3, 0xA9], True)]) = [233]"
proof -
  have 1: "decode_chunk unassigned [0xC3] = Inr []"
    by (simp add: decode_chunk_def utf8_decode.simps)
  have 2: "decode_chunk unassigned [0xA9] = Inr []"
    by (simp add: decode_chunk_def utf8_decode.simps)
  have 3: "decode_chunk unassigned [0xC3, 0xA9] = Inr [233]"
    by (simp add: decode_chunk_def utf8_decode.simps cont_def)
  show ?thesis
    by (simp add: receive_output_def 1 2 3 take_output_def emit_lines_plain flush_long_def)
qed

text \<open>
  Claim C1, amended. The concatenation of the output events of a run (the final flush
  included) is the concatenation of the texts of the chunks, each chunk decoded on its
  own. When every chunk is valid UTF-8 by itself, this is the UTF-8 decoding of all the
  delivered bytes together, wherever they were split.
\<close>

theorem receive_output_text:
  "output_text (receive_output tbl its) = concat (map (decoded tbl) (delivered its))
   \<and> ((\<forall>d \<in> set (delivered its). \<exists>t. utf8_decode d = Inr t) \<longrightarrow>
        utf8_decode (concat (delivered its)) = Inr (output_text (receive_output tbl its)))"
proof -
  have "output_text (receive_output tbl its) = concat (map (decoded tbl) (delivered its))"
    using receive_loop_text[of tbl "[]" its]
    by (auto simp: receive_output_split output_text_append)
  then show ?thesis
    using utf8_decode_concat[of "delivered its" tbl] by simp
qed

text \<open>
  A run for C1: two chunks that are valid UTF-8, with an idle iteration between them.
\<close>

theorem receive_output_text_witness:
  "utf8_decode [0x68, 0x69] = Inr [104, 105]
   \<and> utf8_decode [0xC3, 0xA9, 0x0A] = Inr [233, 10]
   \<and> delivered [(Recv [0x68, 0x69], True), (NotReady, True), (Recv [0xC3, 0xA9, 0x0A], True)]
       = [[0x68, 0x69], [0xC3, 0xA9, 0x0A]]
   \<and> output_text (receive_output unassigned
        [(Recv [0x68, 0x69], True), (NotReady, True), (Recv [0xC3, 0xA9, 0x0A], True)])
       = [104, 105, 233, 10]
   \<and> utf8_decode [0x68, 0x69, 0xC3, 0xA9, 0x0A] = Inr [104, 105, 233, 10]"
proof -
  have 1: "utf8_decode [0x68, 0x69] = Inr [104, 105]"
    by (simp add: utf8_decode.simps)
  have 2: "utf8_decode [0xC3, 0xA9, 0x0A] = Inr [233, 10]"
    by (simp add: utf8_decode.simps cont_def)
  show ?thesis
    using receive_output_text[of unassigned
        "[(Recv [0x68, 0x69], True), (NotReady, True), (Recv [0xC3, 0xA9, 0x0A], True)]"]
    by (simp add: 1 2 decoded_utf8)
qed

section \<open>Properties of the terminal\<close>

lemma remember_history:
  "history (remember command c) =
     (if command \<noteq> [] \<and> command \<notin> set (history c) then history c @ [command] else history c)"
  by (simp add: remember_def Let_def)

lemma remember_fields:
  "is_connected (remember command c) = is_connected c \<and> shell (remember command c) = shell c
   \<and> client (remember command c) = client c"
  by (simp add: remember_def Let_def)

lemma SSHWorker_send_command_same: "fst (SSHWorker_send_command c command r) = c"
  by (simp add: SSHWorker_send_command_def split: send_result.splits)

lemma send_command_connection:
  "connection (fst (SSHTerminal_send_command t r)) =
     (if strip (input_edit t) = [] \<or> \<not> is_connected (connection t) then connection t
      else remember (strip (input_edit t)) (connection t))"
  by (auto simp: SSHTerminal_send_command_def Let_def display_output_def
        SSHWorker_send_command_def split: option.splits send_result.splits prod.splits)

lemma send_command_history:
  "history (connection (fst (SSHTerminal_send_command t r))) =
     (if strip (input_edit t) \<noteq> [] \<and> is_connected (connection t)
         \<and> strip (input_edit t) \<notin> set (history (connection t))
      then history (connection t) @ [strip (input_edit t)]
      else history (connection t))"
  by (simp add: send_command_connection remember_history)

lemma send_command_distinct:
  "distinct (history (connection t)) \<Longrightarrow>
     distinct (history (connection (fst (SSHTerminal_send_command t r))))"
  by (simp add: send_command_history)

lemma submit_all_distinct:
  "distinct (history (connection t)) \<Longrightarrow> distinct (history (connection (submit_all t entered)))"
proof (induction entered arbitrary: t)
  case Nil
  then show ?case by simp
next
  case (Cons e entered)
  obtain line r where e: "e = (line, r)" by (cases e)
  have "distinct (history (connection (t\<lparr>input_edit := line\<rparr>)))"
    using Cons.prems by simp
  then have "distinct (history (connection
               (fst (SSHTerminal_send_command (t\<lparr>input_edit := line\<rparr>) r))))"
    by (rule send_command_distinct)
  then show ?case
    using Cons.IH e by simp
qed

lemma dropWhile_keeps: "xs \<noteq> [] \<Longrightarrow> \<not> P (hd xs) \<Longrightarrow> dropWhile P xs = xs"
  by (cases xs) auto

lemma strip_plain:
  "s \<noteq> [] \<Longrightarrow> \<not> isspace (hd s) \<Longrightarrow> \<not> isspace (last s) \<Longrightarrow> strip s = s"
  by (simp add: strip_def dropWhile_keeps hd_rev)

lemma send_command_is_connected:
  "is_connected (connection (fst (SSHTerminal_send_command t r))) = is_connected (connection t)"
  by (simp add: send_command_connection remember_fields)

text \<open>
  Claim C2, as stated, fails: the test of line 340 is \<open>command not in history\<close>, a test
  against the whole history and not against its last entry. Submitting \<open>ls\<close>, \<open>pwd\<close>
  and \<open>ls\<close> again leaves the history \<open>[ls, pwd]\<close>, not \<open>[ls, pwd, ls]\<close>.
\<close>

theorem repeated_command_counterexample:
  "history (connection (submit_all (terminal_of (SSHConnection_new (lit ''h'')))
      [(lit ''ls'', Sent 3), (lit ''pwd'', Sent 4), (lit ''ls'', Sent 3)]))
     = [lit ''ls'', lit ''pwd'']"
  by (simp add: send_command_history send_command_is_connected terminal_of_def
        SSHConnection_new_def strip_plain lit_def isspace_def)

text \<open>
  Claim C2, amended. \<open>send_command\<close> appends the stripped text of the input line to the
  history exactly when it is not empty, the session is connected and the text occurs
  nowhere in the history; otherwise the history stays as it is. So no command is ever
  in the history twice, next to each other or apart, whatever is submitted.
\<close>

theorem history_without_repeats:
  "history (connection (fst (SSHTerminal_send_command t r))) =
     (if strip (input_edit t) \<noteq> [] \<and> is_connected (connection t)
         \<and> strip (input_edit t) \<notin> set (history (connection t))
      then history (connection t) @ [strip (input_edit t)]
      else history (connection t))
   \<and> (distinct (history (connection t)) \<longrightarrow>
        distinct (history (connection (submit_all t entered))))"
  using send_command_history[of t r] submit_all_distinct[of t entered] by simp

text \<open>
  A run for C2: \<open>ls\<close> twice in a row and then \<open>pwd\<close>, on a fresh connected terminal. The
  second \<open>ls\<close> adds nothing.
\<close>

theorem history_without_repeats_witness:
  "distinct (history (connection (terminal_of (SSHConnection_new (lit ''h'')))))
   \<and> history (connection (submit_all (terminal_of (SSHConnection_new (lit ''h'')))
        [(lit ''ls'', Sent 3), (lit ''ls'', Sent 3), (lit ''pwd'', SendRaises (OSError (lit ''closed'')))]))
       = [lit ''ls'', lit ''pwd'']
   \<and> distinct (history (connection (submit_all (terminal_of (SSHConnection_new (lit ''h'')))
        [(lit ''ls'', Sent 3), (lit ''ls'', Sent 3), (lit ''pwd'', SendRaises (OSError (lit ''closed'')))])))"
  using history_without_repeats[of "terminal_of (SSHConnection_new (lit ''h''))" "Sent 0"
      "[(lit ''ls'', Sent 3), (lit ''ls'', Sent 3), (lit ''pwd'', SendRaises (OSError (lit ''closed'')))]"]
  by (simp add: send_command_history send_command_is_connected terminal_of_def
        SSHConnection_new_def strip_plain lit_def isspace_def)

text \<open>
  Claim C7. On a connected session with a channel, a send that raises emits exactly one
  error event, writes nothing, and leaves the connection as it was: the worker's
  \<open>send_command\<close> returns the same connection. Seen from the terminal, the session is
  still connected afterwards and keeps its client and its channel.
\<close>

theorem failed_send_keeps_session:
  assumes "shell c \<noteq> None" and "is_connected c"
  shows "SSHWorker_send_command c command (SendRaises e)
           = (c, [Error (lit ''Failed to send command: '' @ exn_str e)], [])
         \<and> (connection t = c \<and> worker t = Some running \<and> strip (input_edit t) \<noteq> [] \<longrightarrow>
              snd (SSHTerminal_send_command t (SendRaises e))
                = ([Error (lit ''Failed to send command: '' @ exn_str e)], [])
              \<and> is_connected (connection (fst (SSHTerminal_send_command t (SendRaises e))))
              \<and> shell (connection (fst (SSHTerminal_send_command t (SendRaises e)))) = shell c
              \<and> client (connection (fst (SSHTerminal_send_command t (SendRaises e)))) = client c)"
proof -
  have 1: "SSHWorker_send_command c command (SendRaises e)
             = (c, [Error (lit ''Failed to send command: '' @ exn_str e)], [])"
    using assms by (simp add: SSHWorker_send_command_def)
  have 2: "snd (SSHTerminal_send_command t (SendRaises e))
             = ([Error (lit ''Failed to send command: '' @ exn_str e)], [])"
    if "connection t = c" "worker t = Some running" "strip (input_edit t) \<noteq> []"
    using that assms remember_fields[of "strip (input_edit t)" c]
    by (simp add: SSHTerminal_send_command_def Let_def display_output_def
          SSHWorker_send_command_def)
  show ?thesis
    using 1 2 assms remember_fields[of "strip (input_edit t)" c]
    by (auto simp: send_command_connection)
qed

text \<open>
  A run for C7: the operator submits \<open>ls\<close> and the channel raises.
\<close>

theorem failed_send_keeps_session_witness:
  "shell (connection (terminal_of (SSHConnection_new (lit ''h'')))) \<noteq> None
   \<and> is_connected (connection (terminal_of (SSHConnection_new (lit ''h''))))
   \<and> strip (lit ''ls'') \<noteq> []
   \<and> snd (SSHTerminal_send_command
        ((terminal_of (SSHConnection_new (lit ''h'')))\<lparr>input_edit := lit ''ls''\<rparr>)
        (SendRaises (OSError (lit ''Socket is closed''))))
       = ([Error (lit ''Failed to send command: '' @ lit ''Socket is closed'')], [])
   \<and> is_connected (connection (fst (SSHTerminal_send_command
        ((terminal_of (SSHConnection_new (lit ''h'')))\<lparr>input_edit := lit ''ls''\<rparr>)
        (SendRaises (OSError (lit ''Socket is closed''))))))"
  using failed_send_keeps_session[where c = "connection (terminal_of (SSHConnection_new (lit ''h'')))"
      and t = "(terminal_of (SSHConnection_new (lit ''h'')))\<lparr>input_edit := lit ''ls''\<rparr>"
      and running = True and command = "lit ''ls''" and e = "OSError (lit ''Socket is closed'')"]
  by (simp add: terminal_of_def SSHConnection_new_def strip_plain lit_def isspace_def)

section \<open>Properties of the telemetry client\<close>

lemma store_buffer:
  "data_buffer (store d s) =
     (if length (data_buffer s) + 1 > max_data_points s
      then tl (data_buffer s @ [d]) else data_buffer s @ [d])
   \<and> max_data_points (store d s) = max_data_points s"
  by (simp add: store_def Let_def)

lemma fold_store_capacity: "max_data_points (fold store ds s) = max_data_points s"
  by (induction ds arbitrary: s) (simp_all add: store_buffer)

lemma fold_store_buffer:
  "length (data_buffer s) \<le> max_data_points s \<Longrightarrow>
     data_buffer (fold store ds s) =
       drop (length (data_buffer s) + length ds - max_data_points s) (data_buffer s @ ds)"
proof (induction ds arbitrary: s)
  case Nil
  then show ?case by simp
next
  case (Cons d ds)
  define b where "b = data_buffer s"
  define C where "C = max_data_points s"
  have cap: "max_data_points (store d s) = C"
    by (simp add: store_buffer C_def)
  show ?case
  proof (cases "length b + 1 > C")
    case True
    with Cons.prems have len: "length b = C"
      by (simp add: b_def C_def)
    define b1 where "b1 = drop 1 (b @ [d])"
    have b': "data_buffer (store d s) = b1"
      using True by (simp add: store_buffer drop_Suc b_def C_def b1_def del: drop_append)
    have len': "length b1 = C"
      using len by (simp add: b1_def)
    have "length (data_buffer (store d s)) \<le> max_data_points (store d s)"
      by (simp only: b' cap len')
    then have "data_buffer (fold store ds (store d s)) =
                 drop (length (data_buffer (store d s)) + length ds - max_data_points (store d s))
                   (data_buffer (store d s) @ ds)"
      by (rule Cons.IH)
    then have "data_buffer (fold store ds (store d s)) = drop (length ds) (b1 @ ds)"
      by (simp only: b' cap len' add_diff_cancel_left')
    also have "b1 @ ds = drop 1 (b @ d # ds)"
      unfolding b1_def by (cases b) simp_all
    also have "drop (length ds) (drop 1 (b @ d # ds)) = drop (length ds + 1) (b @ d # ds)"
      by (simp only: drop_drop)
    also have "length ds + 1 = length b + length (d # ds) - C"
      using len by simp
    finally have "data_buffer (fold store ds (store d s))
                    = drop (length b + length (d # ds) - C) (b @ d # ds)" .
    then show ?thesis
      by (simp only: b_def C_def fold_simps)
  next
    case False
    then have b': "data_buffer (store d s) = b @ [d]"
      by (simp add: store_buffer b_def C_def)
    have "length (data_buffer (store d s)) \<le> max_data_points (store d s)"
      unfolding b' cap using False by simp
    then have "data_buffer (fold store ds (store d s)) =
                 drop (length (data_buffer (store d s)) + length ds - max_data_points (store d s))
                   (data_buffer (store d s) @ ds)"
      by (rule Cons.IH)
    then have "data_buffer (fold store ds (store d s)) =
                 drop (length (b @ [d]) + length ds - C) ((b @ [d]) @ ds)"
      by (simp only: b' cap)
    also have "length (b @ [d]) + length ds = length b + length (d # ds)"
      by simp
    also have "(b @ [d]) @ ds = b @ d # ds"
      by simp
    finally show ?thesis
      by (simp only: b_def C_def fold_simps)
  qed
qed

text \<open>
  Claim C4. Starting from the empty buffer, after any sequence of records the buffer is
  no longer than \<open>max_data_points\<close> and holds exactly the last \<open>max_data_points\<close>
  records in the order of arrival. With capacity 100 and 150 records, the buffer holds
  100 records and its first one is record number 50 (counted from 0).
\<close>

theorem ring_buffer_keeps_last:
  assumes "data_buffer s = []"
  shows "length (data_buffer (fold store ds s)) \<le> max_data_points s
         \<and> data_buffer (fold store ds s) = drop (length ds - max_data_points s) ds
         \<and> (max_data_points s = 100 \<and> length ds = 150 \<longrightarrow>
              length (data_buffer (fold store ds s)) = 100
              \<and> data_buffer (fold store ds s) ! 0 = ds ! 50)"
proof -
  have "data_buffer (fold store ds s) = drop (length ds - max_data_points s) ds"
    using fold_store_buffer[of s ds] assms by simp
  then show ?thesis by auto
qed

text \<open>
  A run for C4: 150 numbered records into the buffer of a new \<open>DataVisualizer\<close>.
\<close>

theorem ring_buffer_keeps_last_witness:
  "data_buffer DataVisualizer_init = []
   \<and> max_data_points DataVisualizer_init = 100
   \<and> length (map numbered [0..<150]) = 150
   \<and> length (data_buffer (fold store (map numbered [0..<150]) DataVisualizer_init)) = 100
   \<and> timestamp (data_buffer (fold store (map numbered [0..<150]) DataVisualizer_init) ! 0)
       = timestamp (numbered 50)"
  using ring_buffer_keeps_last[of DataVisualizer_init "map numbered [0..<150]"]
  by (simp add: DataVisualizer_init_def)

lemma websocket_client_normal_end:
  "websocket_client f (Connected [] ClosedOK # rest) s = websocket_client f rest (connected s)"
  by simp

lemma websocket_client_failure:
  "websocket_client f (ConnectRaises e # rest) s = websocket_client f rest (retry s)
   \<and> websocket_client f (Connected [] (ClosedError e) # rest) s
       = websocket_client f rest (retry (connected s))"
  by simp

lemma every_failure_retries:
  "log (websocket_client f (map ConnectRaises es) s)
     = log s @ concat (replicate (length es)
                 [SetStatus (lit ''Disconnected (retrying...)''), Sleep 3])"
proof (induction es arbitrary: s)
  case Nil
  show ?case by simp
next
  case (Cons e es)
  have "log (retry s) = log s @ [SetStatus (lit ''Disconnected (retrying...)''), Sleep 3]"
    by (simp add: retry_def)
  then show ?case
    using Cons[of "retry s"] by simp
qed

lemma first_attempt_raises:
  "log (websocket_client f [ConnectRaises e, Connected [] fin] DataVisualizer_init)
     = [SetStatus (lit ''Disconnected (retrying...)''), Sleep 3, SetStatus (lit ''Connected'')]
       @ (case fin of ClosedOK \<Rightarrow> []
          | ClosedError e' \<Rightarrow> [SetStatus (lit ''Disconnected (retrying...)''), Sleep 3])"
  by (simp add: retry_def connected_def DataVisualizer_init_def split: stream_end.splits)

text \<open>
  Claim C5 and the code differ when a stream ends normally. The iteration over the
  connection then stops without an exception, so the outer \<open>except\<close> clause is not
  entered: the loop opens the next connection at once, with no "Disconnected
  (retrying...)" label and no sleep, and the label stays "Connected". A failure that
  raises does take the label and the sleep of three seconds, as often as it happens
  (\<open>websocket_client_failure\<close>, \<open>every_failure_retries\<close>, \<open>first_attempt_raises\<close>).
\<close>

theorem normal_end_restarts_at_once:
  "websocket_client f (Connected [] ClosedOK # rest) s = websocket_client f rest (connected s)
   \<and> log (websocket_client f [Connected [] ClosedOK, Connected [] ClosedOK] DataVisualizer_init)
       = [SetStatus (lit ''Connected''), SetStatus (lit ''Connected'')]
   \<and> ws_status (websocket_client f [Connected [] ClosedOK] DataVisualizer_init) = lit ''Connected''"
  by (simp add: connected_def DataVisualizer_init_def)

lemma on_message_undecodable: "on_message f (now, Inl JSONDecodeError) s = (s, None)"
  by (simp add: on_message_def try_message_def)

lemma try_message_not_dict: "\<not> is_dict data \<Longrightarrow> try_message (now, Inr data) s = Inl AttributeError"
  by (cases data) (simp_all add: try_message_def dict_get_def)

lemma try_message_dict:
  "try_message (now, Inr (PDict kvs)) s =
     Inr (store \<lparr>timestamp = (case map_of kvs (lit ''timestamp'') of Some v \<Rightarrow> v | None \<Rightarrow> PFloat now),
                 variables = (case map_of kvs (lit ''variables'') of Some v \<Rightarrow> v | None \<Rightarrow> PDict [])\<rparr> s)"
  by (simp add: try_message_def dict_get_def)

lemma receive_messages_undecodable:
  "receive_messages f ((now, Inl JSONDecodeError) # ms) s = receive_messages f ms s"
  by (simp add: on_message_undecodable)

lemma on_message_not_dict:
  "\<not> is_dict data \<Longrightarrow>
     on_message Ui04 (now, Inr data) s
       = (s\<lparr>log := log s @ [Print (lit ''Data processing error: '' @ exn_str AttributeError)]\<rparr>,
          None)"
  by (simp add: on_message_def try_message_not_dict)

lemma receive_messages_not_dict:
  "\<not> is_dict data \<Longrightarrow>
     receive_messages Ui04 ((now, Inr data) # ms) s
       = receive_messages Ui04 ms (fst (on_message Ui04 (now, Inr data) s))"
  by (simp add: on_message_not_dict)

text \<open>
  Claim C6, as stated, fails for a payload of invalid structure: the fields of a decoded
  object are not checked. The message \<open>{"variables": 5}\<close> is appended to the buffer as
  a record whose variables are the number 5, in both files.
\<close>

theorem unvalidated_record_counterexample:
  "data_buffer (fst (on_message Ui04 (1000, Inr (PDict [(lit ''variables'', PInt 5)]))
      DataVisualizer_init))
     = [\<lparr>timestamp = PFloat 1000, variables = PInt 5\<rparr>]
   \<and> data_buffer (fst (on_message Websockui (1000, Inr (PDict [(lit ''variables'', PInt 5)]))
      DataVisualizer_init))
     = [\<lparr>timestamp = PFloat 1000, variables = PInt 5\<rparr>]"
  by (simp add: on_message_def try_message_dict store_def DataVisualizer_init_def lit_def)

text \<open>
  Claim C6, amended. A message that \<open>json.loads\<close> rejects is dropped silently: the state
  is unchanged, nothing leaves the loop, and the loop goes on with the next message. In
  \<open>ui04.py\<close> a payload that decodes to something other than an object is dropped too
  (it is printed), with the buffer unchanged and the loop going on. A payload that
  decodes to an object is always stored as a record, whatever its fields hold.
\<close>

theorem undecodable_message_dropped:
  "on_message f (now, Inl JSONDecodeError) s = (s, None)
   \<and> receive_messages f ((now, Inl JSONDecodeError) # ms) s = receive_messages f ms s
   \<and> (\<not> is_dict data \<longrightarrow>
        snd (on_message Ui04 (now, Inr data) s) = None
        \<and> data_buffer (fst (on_message Ui04 (now, Inr data) s)) = data_buffer s
        \<and> receive_messages Ui04 ((now, Inr data) # ms) s
            = receive_messages Ui04 ms (fst (on_message Ui04 (now, Inr data) s)))
   \<and> (is_dict data \<longrightarrow>
        (\<exists>d. on_message f (now, Inr data) s = (store d s, None)))"
proof -
  have "\<exists>d. on_message f (now, Inr data) s = (store d s, None)" if "is_dict data"
    using that by (cases data) (auto simp: on_message_def try_message_dict)
  then show ?thesis
    using receive_messages_undecodable[of f now ms s] receive_messages_not_dict[of data now ms s]
    by (auto simp: on_message_undecodable on_message_not_dict simp del: receive_messages.simps)
qed

text \<open>
  Two messages for C6: the array \<open>[]\<close> in \<open>ui04.py\<close>, and the empty object.
\<close>

theorem undecodable_message_dropped_witness:
  "\<not> is_dict (PList [])
   \<and> snd (on_message Ui04 (1000, Inr (PList [])) DataVisualizer_init) = None
   \<and> data_buffer (fst (on_message Ui04 (1000, Inr (PList [])) DataVisualizer_init)) = []
   \<and> is_dict (PDict [])
   \<and> on_message Websockui (1000, Inr (PDict [])) DataVisualizer_init
       = (store \<lparr>timestamp = PFloat 1000, variables = PDict []\<rparr> DataVisualizer_init, None)"
  using undecodable_message_dropped[of Ui04 1000 DataVisualizer_init "[]" "PList []"]
    undecodable_message_dropped[of Websockui 1000 DataVisualizer_init "[]" "PDict []"]
  by (simp add: DataVisualizer_init_def on_message_def try_message_dict)

section \<open>Properties of the presenter\<close>





lemma format_2f_overflow: "format_2f (PInt (10 ^ 400)) = Inl OverflowError"
  by (simp add: float_range_def)



lemma value_of_missing:
  "variables d = PDict kvs \<Longrightarrow> map_of kvs var = None \<Longrightarrow> value_of var d = PInt 0"
  by (simp add: value_of_def)


end
